theory Spec2Isabelle
  imports Main
begin

section \<open>Python strings\<close>

text \<open>
  A Python \<open>str\<close> is a sequence of code points; a \<^typ>\<open>string\<close> here is the sequence of
  the code points below 256, one \<^typ>\<open>char\<close> each. \<open>str.isspace\<close>, \<open>str.strip\<close> and the
  regular-expression class \<open>\s\<close> agree on what whitespace is: on this range the characters
  0x09-0x0D, 0x1C-0x1F, 0x20, 0x85 and 0xA0.
\<close>

definition is_space :: "char \<Rightarrow> bool" where
  "is_space c = (c \<in> {CHR 0x09, CHR 0x0A, CHR 0x0B, CHR 0x0C, CHR 0x0D,
                       CHR 0x1C, CHR 0x1D, CHR 0x1E, CHR 0x1F, CHR 0x20,
                       CHR 0x85, CHR 0xA0})"

text \<open>\<open>s.strip()\<close>: whitespace removed at both ends.\<close>

definition strip :: "string \<Rightarrow> string" where
  "strip s = rev (dropWhile is_space (rev (dropWhile is_space s)))"

text \<open>\<open>s.startswith(p)\<close>.\<close>

definition startswith :: "string \<Rightarrow> string \<Rightarrow> bool" where
  "startswith s p = (take (length p) s = p)"

text \<open>\<open>sub in s\<close>: \<open>sub\<close> occurs in \<open>s\<close> as a substring.\<close>

fun contains :: "string \<Rightarrow> string \<Rightarrow> bool" where
  "contains sub [] = (sub = [])"
| "contains sub (c # cs) = (startswith (c # cs) sub \<or> contains sub cs)"

section \<open>The regular expressions of the client\<close>

text \<open>
  Every pattern of \<open>swarmirc.py\<close> and \<open>discord-bridge.py\<close> is a sequence of items, each one
  character class under a quantifier, some of them a capturing group:
  \<open>\S+\<close>, \<open>\s+\<close>, \<open>.*\<close>, or a literal character. \<open>re.match\<close> is Python's
  backtracking matcher anchored at the start of the text: a quantifier first takes as many
  characters as its class allows, and gives them back one at a time while the rest of the
  pattern fails. The leading \<open>^\<close> of the patterns adds nothing under \<open>re.match\<close> and is
  left out.
\<close>

datatype cls =
    Chr char          \<comment> \<open>a literal character\<close>
  | Space             \<comment> \<open>\<open>\s\<close>\<close>
  | NonSpace          \<comment> \<open>\<open>\S\<close>\<close>
  | Dot               \<comment> \<open>\<open>.\<close> without \<open>re.DOTALL\<close>: any character but a newline\<close>
  | DotAll            \<comment> \<open>\<open>.\<close> under \<open>re.DOTALL\<close>: any character\<close>

datatype quant = Once | Plus | Star

type_synonym item = "cls \<times> quant \<times> bool"   \<comment> \<open>class, quantifier, capturing\<close>

fun in_cls :: "cls \<Rightarrow> char \<Rightarrow> bool" where
  "in_cls (Chr a) c = (c = a)"
| "in_cls Space c = is_space c"
| "in_cls NonSpace c = (\<not> is_space c)"
| "in_cls Dot c = (c \<noteq> CHR 0x0A)"
| "in_cls DotAll c = True"

fun min_count :: "quant \<Rightarrow> nat" where
  "min_count Once = 1"
| "min_count Plus = 1"
| "min_count Star = 0"

text \<open>The most characters an item can take at the start of \<open>s\<close>.\<close>

fun max_count :: "cls \<Rightarrow> quant \<Rightarrow> string \<Rightarrow> nat" where
  "max_count c Once s = (case s of [] \<Rightarrow> 0 | x # _ \<Rightarrow> if in_cls c x then 1 else 0)"
| "max_count c Plus s = length (takeWhile (in_cls c) s)"
| "max_count c Star s = length (takeWhile (in_cls c) s)"

text \<open>
  \<open>backtrack k cap s lo n\<close>: the item takes \<open>n\<close> characters of \<open>s\<close> and the rest of the
  pattern, \<open>k\<close>, runs on what is left; when that fails the item takes one character less,
  down to \<open>lo\<close>. The groups of a match are listed in the order of the pattern.
\<close>

fun backtrack ::
  "(string \<Rightarrow> string list option) \<Rightarrow> bool \<Rightarrow> string \<Rightarrow> nat \<Rightarrow> nat \<Rightarrow> string list option" where
  "backtrack k cap s lo 0 =
     (if 0 < lo then None
      else case k s of
             Some g \<Rightarrow> Some (if cap then [] # g else g)
           | None \<Rightarrow> None)"
| "backtrack k cap s lo (Suc n) =
     (if Suc n < lo then None
      else case k (drop (Suc n) s) of
             Some g \<Rightarrow> Some (if cap then take (Suc n) s # g else g)
           | None \<Rightarrow> backtrack k cap s lo n)"

primrec re_match :: "item list \<Rightarrow> string \<Rightarrow> string list option" where
  "re_match [] s = Some []"
| "re_match (it # its) s =
     (case it of (c, q, cap) \<Rightarrow>
        backtrack (re_match its) cap s (min_count q) (max_count c q s))"

text \<open>\<open>re.search\<close>: the first position of the text, left to right, where the pattern matches.\<close>

fun re_search :: "item list \<Rightarrow> string \<Rightarrow> string list option" where
  "re_search p [] = re_match p []"
| "re_search p (c # cs) =
     (case re_match p (c # cs) of
        Some g \<Rightarrow> Some g
      | None \<Rightarrow> re_search p cs)"

text \<open>A literal piece of a pattern, character by character.\<close>

definition lit :: "string \<Rightarrow> item list" where
  "lit s = map (\<lambda>c. (Chr c, Once, False)) s"

text \<open>\<open>r'^:(\S+)\s+(\S+)\s+(.*)'\<close>, the line pattern of \<open>_parse_line\<close>.\<close>

definition line_re :: "item list" where
  "line_re = [(Chr CHR '':'', Once, False), (NonSpace, Plus, True), (Space, Plus, False),
              (NonSpace, Plus, True), (Space, Plus, False), (Dot, Star, True)]"

text \<open>\<open>r'^(\S+)\s+:(.*)'\<close> under \<open>re.DOTALL\<close>, the parameters of PRIVMSG, QUERY and CMD.\<close>

definition params_re :: "item list" where
  "params_re = [(NonSpace, Plus, True), (Space, Plus, False), (Chr CHR '':'', Once, False),
                (DotAll, Star, True)]"

text \<open>\<open>r'^(\S+)'\<close>, the channel of PART.\<close>

definition token_re :: "item list" where
  "token_re = [(NonSpace, Plus, True)]"

text \<open>\<open>r'Welcome to ClawSwarm, (\S+)!'\<close>, the name in the welcome numeric.\<close>

definition welcome_re :: "item list" where
  "welcome_re = lit ''Welcome to ClawSwarm, '' @ [(NonSpace, Plus, True), (Chr CHR ''!'', Once, False)]"

section \<open>Results and exceptions\<close>

datatype exn =
    ConnectionClosed       \<comment> \<open>the transport is closed\<close>
  | AttributeError         \<comment> \<open>\<open>self.ws.recv()\<close> while \<open>self.ws\<close> is \<open>None\<close>\<close>
  | IndexError             \<comment> \<open>\<open>m.group(i)\<close> for a group the match does not have\<close>
  | TypeError              \<comment> \<open>a call with the wrong number of arguments\<close>
  | Exception string       \<comment> \<open>anything an application handler raises\<close>

datatype 'a result = Return 'a | Raise exn

section \<open>Handlers and dispatch\<close>

text \<open>
  A handler is a Python callable: called with its arguments it changes the world it lives
  in and returns or raises; what it did before it raised stays done. The world is
  everything a handler can touch but the registry it is called from. The registry
  \<open>self._handlers\<close> maps each of its eight keys to the handlers registered for it, in
  registration order.
\<close>

type_synonym 'w handler = "string list \<Rightarrow> 'w \<Rightarrow> unit result \<times> 'w"

datatype kind = Message | Join | Part | Quit | Topic | Query | Cmd | Raw

type_synonym 'w registry = "kind \<Rightarrow> 'w handler list"

text \<open>The registry \<open>__init__\<close> builds: no handler for any key.\<close>

definition no_handlers :: "'w registry" where
  "no_handlers = (\<lambda>k. [])"

text \<open>
  \<open>on_message\<close>, \<open>on_join\<close>, \<open>on_part\<close>, \<open>on_query\<close>, \<open>on_cmd\<close>, \<open>on_raw\<close>:
  \<open>self._handlers[key].append(func)\<close>.
\<close>

definition register :: "kind \<Rightarrow> 'w handler \<Rightarrow> 'w registry \<Rightarrow> 'w registry" where
  "register k f H = H(k := H k @ [f])"

definition on_message :: "'w handler \<Rightarrow> 'w registry \<Rightarrow> 'w registry" where
  "on_message = register Message"

definition on_join :: "'w handler \<Rightarrow> 'w registry \<Rightarrow> 'w registry" where
  "on_join = register Join"

definition on_part :: "'w handler \<Rightarrow> 'w registry \<Rightarrow> 'w registry" where
  "on_part = register Part"

definition on_query :: "'w handler \<Rightarrow> 'w registry \<Rightarrow> 'w registry" where
  "on_query = register Query"

definition on_cmd :: "'w handler \<Rightarrow> 'w registry \<Rightarrow> 'w registry" where
  "on_cmd = register Cmd"

definition on_raw :: "'w handler \<Rightarrow> 'w registry \<Rightarrow> 'w registry" where
  "on_raw = register Raw"

text \<open>\<open>try: h(...)  except: pass\<close>: what the handler did to the world stays, its exception goes.\<close>

definition try_pass :: "unit result \<times> 'w \<Rightarrow> unit result \<times> 'w" where
  "try_pass r = (case r of (Return u, w) \<Rightarrow> (Return (), w) | (Raise e, w) \<Rightarrow> (Return (), w))"

text \<open>\<open>for h in self._handlers[key]: try: h(args)  except: pass\<close>.\<close>

fun fire :: "'w handler list \<Rightarrow> string list \<Rightarrow> 'w \<Rightarrow> unit result \<times> 'w" where
  "fire [] args w = (Return (), w)"
| "fire (h # hs) args w =
     (case try_pass (h args w) of
        (Return u, w') \<Rightarrow> fire hs args w'
      | (Raise e, w') \<Rightarrow> (Raise e, w'))"

text \<open>\<open>prefix.split('!')[0]\<close>: the text before the first \<open>!\<close>.\<close>

definition nick_of :: "string \<Rightarrow> string" where
  "nick_of prefix = takeWhile (\<lambda>c. c \<noteq> CHR ''!'') prefix"

text \<open>
  The branch of \<open>_parse_line\<close> shared by PRIVMSG, QUERY and CMD: match the parameters,
  and on a match call the handlers of the key with the sender and the two groups.
\<close>

definition fire_params :: "'w handler list \<Rightarrow> string \<Rightarrow> string \<Rightarrow> 'w \<Rightarrow> unit result \<times> 'w" where
  "fire_params hs sender params w =
     (case re_match params_re params of
        None \<Rightarrow> (Return (), w)
      | Some [a, b] \<Rightarrow> fire hs [sender, a, b] w
      | Some _ \<Rightarrow> (Raise IndexError, w))"

text \<open>\<open>SwarmIRC._parse_line\<close>.\<close>

definition parse_line :: "'w registry \<Rightarrow> string \<Rightarrow> 'w \<Rightarrow> unit result \<times> 'w" where
  "parse_line H line0 w0 =
     (let line = strip line0 in
      if line = [] then (Return (), w0)
      else case fire (H Raw) [line] w0 of
        (Raise e, w) \<Rightarrow> (Raise e, w)
      | (Return u, w) \<Rightarrow>
         (case re_match line_re line of
            None \<Rightarrow> (Return (), w)
          | Some [prefix, command, params] \<Rightarrow>
              (let sender = nick_of prefix in
               if command = ''PRIVMSG'' then fire_params (H Message) sender params w
               else if command = ''JOIN'' then fire (H Join) [sender, strip params] w
               else if command = ''PART'' then
                 (case re_match token_re params of
                    None \<Rightarrow> fire (H Part) [sender, params] w
                  | Some [channel] \<Rightarrow> fire (H Part) [sender, channel] w
                  | Some _ \<Rightarrow> (Raise IndexError, w))
               else if command = ''QUERY'' then fire_params (H Query) sender params w
               else if command = ''CMD'' then fire_params (H Cmd) sender params w
               else (Return (), w))
          | Some _ \<Rightarrow> (Raise IndexError, w)))"

section \<open>The transport\<close>

text \<open>
  The websocket is a collaborator of the client. Its model is a scripted transport: the
  payloads the server will deliver, in order, the payloads the client has handed to
  \<open>send\<close>, in order, and whether the connection is still open. \<open>send\<close> and \<open>recv\<close> raise
  \<open>ConnectionClosed\<close> on a closed connection, and \<open>recv\<close> raises it as well when the script
  has run out: the server closes after its last payload.
\<close>

record websocket =
  inbound :: "string list"
  outbound :: "string list"
  alive :: bool

definition ws_send :: "string \<Rightarrow> websocket \<Rightarrow> unit result \<times> websocket" where
  "ws_send msg w =
     (if alive w then (Return (), w\<lparr>outbound := outbound w @ [msg]\<rparr>)
      else (Raise ConnectionClosed, w))"

definition ws_recv :: "websocket \<Rightarrow> string result \<times> websocket" where
  "ws_recv w =
     (if alive w then
        (case inbound w of
           [] \<Rightarrow> (Raise ConnectionClosed, w\<lparr>alive := False\<rparr>)
         | m # ms \<Rightarrow> (Return m, w\<lparr>inbound := ms\<rparr>))
      else (Raise ConnectionClosed, w))"

section \<open>The client\<close>

text \<open>
  The fields of \<open>SwarmIRC\<close> but \<open>_handlers\<close>, which is the registry above: the handlers
  act on a world of their own, and \<open>_parse_line\<close> reads nothing else of the client.
\<close>

record client =
  url :: string
  api_key :: string
  ws :: "websocket option"
  name :: "string option"
  authenticated :: bool
  channels :: "string set"
  running :: bool

text \<open>\<open>SwarmIRC.__init__\<close>.\<close>

definition init :: "string \<Rightarrow> string \<Rightarrow> client" where
  "init u k = \<lparr>url = u, api_key = k, ws = None, name = None, authenticated = False,
              channels = {}, running = False\<rparr>"

text \<open>\<open>SwarmIRC._send\<close>: \<open>if self.ws: await self.ws.send(msg)\<close>.\<close>

definition raw_send :: "string \<Rightarrow> client \<Rightarrow> unit result \<times> client" where
  "raw_send msg self =
     (case ws self of
        None \<Rightarrow> (Return (), self)
      | Some w \<Rightarrow> (case ws_send msg w of (r, w') \<Rightarrow> (r, self\<lparr>ws := Some w'\<rparr>)))"

text \<open>\<open>if not channel.startswith('#'): channel = f'#{channel}'\<close>.\<close>

definition normalize :: "string \<Rightarrow> string" where
  "normalize channel = (if \<not> startswith channel ''#'' then ''#'' @ channel else channel)"

definition join :: "string \<Rightarrow> client \<Rightarrow> unit result \<times> client" where
  "join channel0 self =
     (let channel = normalize channel0 in
      case raw_send (''JOIN '' @ channel) self of
        (Raise e, s) \<Rightarrow> (Raise e, s)
      | (Return u, s) \<Rightarrow> (Return (), s\<lparr>channels := insert channel (channels s)\<rparr>))"

definition part :: "string \<Rightarrow> string \<Rightarrow> client \<Rightarrow> unit result \<times> client" where
  "part channel0 reason self =
     (let channel = normalize channel0 in
      case raw_send (''PART '' @ channel @ '' :'' @ reason) self of
        (Raise e, s) \<Rightarrow> (Raise e, s)
      | (Return u, s) \<Rightarrow> (Return (), s\<lparr>channels := channels s - {channel}\<rparr>))"

definition send :: "string \<Rightarrow> string \<Rightarrow> client \<Rightarrow> unit result \<times> client" where
  "send target message self = raw_send (''PRIVMSG '' @ target @ '' :'' @ message) self"

definition who :: "string \<Rightarrow> client \<Rightarrow> unit result \<times> client" where
  "who channel0 self = (let channel = normalize channel0 in raw_send (''WHO '' @ channel) self)"

definition whois :: "string \<Rightarrow> client \<Rightarrow> unit result \<times> client" where
  "whois nick self = raw_send (''WHOIS '' @ nick) self"

definition list_channels :: "client \<Rightarrow> unit result \<times> client" where
  "list_channels self = raw_send ''LIST'' self"

definition query :: "string \<Rightarrow> string \<Rightarrow> client \<Rightarrow> unit result \<times> client" where
  "query nick query_type self = raw_send (''QUERY '' @ nick @ '' '' @ query_type) self"

definition register_command :: "string \<Rightarrow> string \<Rightarrow> client \<Rightarrow> unit result \<times> client" where
  "register_command command description self =
     raw_send (''REGISTER '' @ command @ '' :'' @ description) self"

definition set_topic :: "string \<Rightarrow> string \<Rightarrow> client \<Rightarrow> unit result \<times> client" where
  "set_topic channel0 topic self =
     (let channel = normalize channel0 in raw_send (''TOPIC '' @ channel @ '' :'' @ topic) self)"

subsection \<open>The handshake\<close>

text \<open>\<open>await self.ws.recv()\<close>.\<close>

definition recv :: "client \<Rightarrow> string result \<times> client" where
  "recv self =
     (case ws self of
        None \<Rightarrow> (Raise AttributeError, self)
      | Some w \<Rightarrow> (case ws_recv w of (r, w') \<Rightarrow> (r, self\<lparr>ws := Some w'\<rparr>)))"

text \<open>The body of \<open>if '001' in line:\<close> in \<open>connect\<close>.\<close>

definition on_welcome :: "string \<Rightarrow> client \<Rightarrow> unit result \<times> client" where
  "on_welcome line self =
     (case re_search welcome_re line of
        None \<Rightarrow> (Return (), self\<lparr>authenticated := True\<rparr>)
      | Some [n] \<Rightarrow> (Return (), self\<lparr>name := Some n, authenticated := True\<rparr>)
      | Some _ \<Rightarrow> (Raise IndexError, self))"

text \<open>The payloads the script still holds for the client.\<close>

definition pending :: "client \<Rightarrow> nat" where
  "pending self = (case ws self of None \<Rightarrow> 0 | Some w \<Rightarrow> length (inbound w))"

text \<open>The \<open>while True:\<close> loop of \<open>connect\<close>; each turn takes one payload of the script.\<close>

function auth_loop :: "client \<Rightarrow> unit result \<times> client" where
  "auth_loop self =
     (case recv self of
        (Raise e, s1) \<Rightarrow> (Raise e, s1)
      | (Return msg, s1) \<Rightarrow>
          (let line = strip msg in
           case (if contains ''001'' line then on_welcome line s1 else (Return (), s1)) of
             (Raise e, s2) \<Rightarrow> (Raise e, s2)
           | (Return u, s2) \<Rightarrow>
               if contains ''376'' line \<or> contains ''422'' line then (Return (), s2)
               else auth_loop s2))"
  by pat_completeness auto

termination auth_loop
  by (relation "measure pending")
     (auto simp: recv_def ws_recv_def on_welcome_def pending_def
           split: option.splits if_splits list.splits)

declare auth_loop.simps [simp del]

text \<open>
  \<open>SwarmIRC.connect\<close>. \<open>dial\<close> is \<open>websockets.connect\<close>: the connection to a URL, or the
  exception of a failed attempt.
\<close>

definition connect :: "(string \<Rightarrow> websocket result) \<Rightarrow> client \<Rightarrow> bool result \<times> client" where
  "connect dial self =
     (case dial (url self) of
        Raise e \<Rightarrow> (Raise e, self)
      | Return w \<Rightarrow>
         (case recv (self\<lparr>ws := Some w\<rparr>) of
            (Raise e, s1) \<Rightarrow> (Raise e, s1)
          | (Return banner, s1) \<Rightarrow>
             (case raw_send (''AUTH '' @ api_key s1) s1 of
                (Raise e, s2) \<Rightarrow> (Raise e, s2)
              | (Return u, s2) \<Rightarrow>
                 (case auth_loop s2 of
                    (Raise e, s3) \<Rightarrow> (Raise e, s3)
                  | (Return u, s3) \<Rightarrow> (Return (authenticated s3), s3)))))"

section \<open>The bridge\<close>

text \<open>
  The Discord client is the bridge's second collaborator. Of a Discord server the model
  keeps the channels \<open>get_channel\<close> finds, the channels that refuse a message
  (\<open>channel.send\<close> raises there), and every call of \<open>channel.send\<close>, in order.
\<close>

record discord_client =
  visible :: "int set"
  refusing :: "int set"
  posted :: "(int \<times> string) list"

definition get_channel :: "discord_client \<Rightarrow> int \<Rightarrow> int option" where
  "get_channel d cid = (if cid \<in> visible d then Some cid else None)"

definition channel_send :: "int \<Rightarrow> string \<Rightarrow> discord_client \<Rightarrow> unit result \<times> discord_client" where
  "channel_send cid text d =
     (let d' = d\<lparr>posted := posted d @ [(cid, text)]\<rparr> in
      if cid \<in> refusing d then (Raise (Exception ''HTTPException''), d') else (Return (), d'))"

text \<open>What \<open>on_message\<close> reads of a \<open>discord.Message\<close>.\<close>

record discord_message =
  author_bot :: bool
  author_display_name :: string
  in_guild :: bool
  channel_id :: int
  content :: string

text \<open>
  \<open>DiscordSwarmIRCBridge\<close>. \<open>bridged_channels\<close> is a dict, kept as the list of its items in
  insertion order: \<open>on_swarm_message\<close> walks it in that order.
\<close>

record bridge =
  discord :: discord_client
  swarmirc :: client
  swarmirc_name :: "string option"
  bridged_channels :: "(int \<times> string) list"

text \<open>The module's \<open>CHANNEL_MAPPINGS\<close>.\<close>

definition CHANNEL_MAPPINGS :: "(int \<times> string) list" where
  "CHANNEL_MAPPINGS =
     [(1328042828462297282, ''general''),
      (1446073956250419344, ''data''),
      (1467232979314020494, ''research'')]"

text \<open>\<open>d[k] = v\<close> on a dict: a key it has keeps its place, a new key goes last.\<close>

fun dict_set :: "'k \<Rightarrow> 'v \<Rightarrow> ('k \<times> 'v) list \<Rightarrow> ('k \<times> 'v) list" where
  "dict_set k v [] = [(k, v)]"
| "dict_set k v ((k', v') # kvs) = (if k' = k then (k, v) # kvs else (k', v') # dict_set k v kvs)"

text \<open>\<open>on_ready\<close>: every mapped channel Discord knows is bridged.\<close>

definition on_ready :: "bridge \<Rightarrow> bridge" where
  "on_ready self =
     foldl (\<lambda>b (discord_id, swarm_channel).
              case get_channel (discord b) discord_id of
                None \<Rightarrow> b
              | Some channel \<Rightarrow>
                  b\<lparr>bridged_channels := dict_set discord_id swarm_channel (bridged_channels b)\<rparr>)
           self CHANNEL_MAPPINGS"

text \<open>
  The body of \<open>on_message(self, message)\<close> of \<open>setup_discord_handlers\<close>, on a bridge and a
  message given for its two parameters. An exception of the send is caught and logged;
  what the client did before it raised stays. This is what a call with both arguments
  runs; \<open>message_event\<close> below is the call discord.py makes.
\<close>

definition on_discord_message :: "bridge \<Rightarrow> discord_message \<Rightarrow> bridge" where
  "on_discord_message self message =
     (if author_bot message \<or> \<not> in_guild message then self
      else (case map_of (bridged_channels self) (channel_id message) of
         None \<Rightarrow> self
       | Some swarm_channel \<Rightarrow>
          (let text = ''[Discord/'' @ author_display_name message @ ''] '' @ content message in
           (case send (''#'' @ swarm_channel) text (swarmirc self) of
              (r, c) \<Rightarrow> self\<lparr>swarmirc := c\<rparr>))))"

text \<open>
  The loop of \<open>on_swarm_message\<close> over \<open>bridged_channels.items()\<close>: the id of the first item
  whose SwarmIRC channel is the one looked for.
\<close>

fun find_discord_channel_id :: "(int \<times> string) list \<Rightarrow> string \<Rightarrow> int option" where
  "find_discord_channel_id [] swarm_channel = None"
| "find_discord_channel_id ((did, sch) # items) swarm_channel =
     (if sch = swarm_channel then Some did else find_discord_channel_id items swarm_channel)"

text \<open>
  The body of the coroutine \<open>on_swarm_message\<close>, run to its end.
  \<open>if not discord_channel_id\<close> leaves on \<open>None\<close> and on the id 0. This is what the
  coroutine does once awaited; \<open>setup_swarmirc_handlers\<close> below is what the client calls.
\<close>

definition on_swarm_message :: "bridge \<Rightarrow> string \<Rightarrow> string \<Rightarrow> string \<Rightarrow> bridge" where
  "on_swarm_message self sender target text =
     (if \<not> startswith target ''#'' then self
      else if Some sender = swarmirc_name self then self
      else if startswith text ''[Discord/'' then self
      else (let swarm_channel = drop 1 target in
        (case find_discord_channel_id (bridged_channels self) swarm_channel of
           None \<Rightarrow> self
         | Some discord_channel_id \<Rightarrow>
            (if discord_channel_id = 0 then self
             else (case get_channel (discord self) discord_channel_id of
                None \<Rightarrow> self
              | Some discord_channel \<Rightarrow>
                 (case channel_send discord_channel
                         (''**[SwarmIRC/'' @ sender @ '']** '' @ text) (discord self) of
                    (r, d) \<Rightarrow> self\<lparr>discord := d\<rparr>))))))"

text \<open>
  \<open>on_swarm_raw\<close>: the bridge learns its SwarmIRC name from the first welcome line it sees.
\<close>

definition on_swarm_raw :: "bridge \<Rightarrow> string \<Rightarrow> bridge result" where
  "on_swarm_raw self line =
     (if contains ''Welcome to ClawSwarm'' line \<and> swarmirc_name self = None then
        (case re_search welcome_re line of
           None \<Rightarrow> Return self
         | Some [n] \<Rightarrow> Return (self\<lparr>swarmirc_name := Some n\<rparr>)
         | Some _ \<Rightarrow> Raise IndexError)
      else Return self)"

subsection \<open>The handlers as they are registered\<close>

text \<open>
  \<open>on_swarm_message\<close> and \<open>on_swarm_raw\<close> are \<open>async def\<close>. A call of a coroutine function
  checks the number of its arguments and builds a coroutine object; the body runs when the
  object is awaited. \<open>_parse_line\<close> calls \<open>h(...)\<close> and drops what the call returns, so
  for these two handlers no body runs: the call leaves the world as it was.
\<close>

definition unawaited :: "nat \<Rightarrow> 'w handler" where
  "unawaited n args w = (if length args = n then (Return (), w) else (Raise TypeError, w))"

text \<open>
  \<open>setup_swarmirc_handlers\<close>: \<open>@self.swarmirc.on_message\<close> on \<open>on_swarm_message\<close>, of
  three parameters, then \<open>@self.swarmirc.on_raw\<close> on \<open>on_swarm_raw\<close>, of one.
\<close>

definition setup_swarmirc_handlers :: "bridge registry \<Rightarrow> bridge registry" where
  "setup_swarmirc_handlers H = on_raw (unawaited 1) (on_message (unawaited 3) H)"

text \<open>
  A call of \<open>on_message\<close> with positional arguments. The function is declared with the two
  parameters \<open>self\<close> and \<open>message\<close>: a call with a bridge and a message runs the body, any
  other call raises \<open>TypeError\<close> before the first line of the body.
\<close>

datatype argument = Self bridge | Msg discord_message

definition on_message_call :: "argument list \<Rightarrow> bridge \<Rightarrow> unit result \<times> bridge" where
  "on_message_call args b =
     (case args of
        [Self self, Msg message] \<Rightarrow> (Return (), on_discord_message self message)
      | _ \<Rightarrow> (Raise TypeError, b))"

text \<open>
  A message event of Discord. \<open>@self.discord.event\<close> stores the function under its name,
  and discord.py delivers the event by calling what is stored with the message alone.
\<close>

definition message_event :: "discord_message \<Rightarrow> bridge \<Rightarrow> unit result \<times> bridge" where
  "message_event message b = on_message_call [Msg message] b"

section \<open>Notions of the specification\<close>

text \<open>The capturing groups of a pattern; every match has one text for each.\<close>

definition groups :: "item list \<Rightarrow> nat" where
  "groups p = length (filter (\<lambda>it. snd (snd it)) p)"

text \<open>\<open>s.rstrip()\<close>: whitespace removed at the end. \<open>strip\<close> does this to the last field of a line.\<close>

definition rstrip :: "string \<Rightarrow> string" where
  "rstrip s = rev (dropWhile is_space (rev s))"

text \<open>
  The structured event of a line, if it has one: the key of the handlers that are called
  and the arguments they are called with. \<open>dispatch\<close> calls them, in registration order.
\<close>

fun dispatch :: "'w registry \<Rightarrow> (kind \<times> string list) option \<Rightarrow> 'w \<Rightarrow> unit result \<times> 'w" where
  "dispatch H None w = (Return (), w)"
| "dispatch H (Some (k, args)) w = fire (H k) args w"

definition structured :: "(kind \<times> string list) option \<Rightarrow> bool" where
  "structured ev =
     (case ev of None \<Rightarrow> True | Some (k, args) \<Rightarrow> k \<in> {Message, Join, Part, Query, Cmd})"

text \<open>
  A malformed line: the line pattern does not match it (no \<open>:sender COMMAND\<close> prefix, or
  nothing after the command), or its command is none of the five the client knows, or the
  parameters of a PRIVMSG, QUERY or CMD are not of the form \<open>word :text\<close>.
\<close>

definition malformed :: "string \<Rightarrow> bool" where
  "malformed line =
     (case re_match line_re (strip line) of
        None \<Rightarrow> True
      | Some [prefix, command, params] \<Rightarrow>
          (if command \<in> {''PRIVMSG'', ''QUERY'', ''CMD''} then re_match params_re params = None
           else command \<notin> {''JOIN'', ''PART''})
      | Some _ \<Rightarrow> False)"

text \<open>
  Handlers to observe a dispatch with. Their world is a log: each call appends the
  handler's tag and its arguments; \<open>logger\<close> then returns and \<open>faulty\<close> raises.
\<close>

definition logger :: "string \<Rightarrow> string list list handler" where
  "logger tag args w = (Return (), w @ [tag # args])"

definition faulty :: "string \<Rightarrow> string list list handler" where
  "faulty tag args w = (Raise (Exception tag), w @ [tag # args])"

text \<open>A registry with one logger for each kind of event the parser produces.\<close>

definition demo :: "string list list registry" where
  "demo = on_raw (logger ''raw'')
            (on_message (logger ''message'')
              (on_join (logger ''join'')
                (on_part (logger ''part'')
                  (on_query (logger ''query'')
                    (on_cmd (logger ''cmd'') no_handlers)))))"

text \<open>Three message handlers, registered in the order first, second, third; the second raises.\<close>

definition three :: "string list list registry" where
  "three = on_message (logger ''third'')
             (on_message (faulty ''second'')
               (on_message (logger ''first'') no_handlers))"

text \<open>
  The handshake, payload by payload: the payloads that end the loop of \<open>connect\<close>, the
  payloads that authenticate, the payloads the loop reads of a script (up to the first that
  ends it, that one included), and what one payload does to the name and to the
  \<open>authenticated\<close> flag of the client.
\<close>

definition terminator :: "string \<Rightarrow> bool" where
  "terminator msg = (contains ''376'' (strip msg) \<or> contains ''422'' (strip msg))"

definition numeric_001 :: "string \<Rightarrow> bool" where
  "numeric_001 msg = contains ''001'' (strip msg)"

fun handshake_lines :: "string list \<Rightarrow> string list" where
  "handshake_lines [] = []"
| "handshake_lines (m # ms) = (if terminator m then [m] else m # handshake_lines ms)"

definition absorb :: "string option \<times> bool \<Rightarrow> string \<Rightarrow> string option \<times> bool" where
  "absorb na msg =
     (if numeric_001 msg then
        (case re_search welcome_re (strip msg) of
           None \<Rightarrow> (fst na, True)
         | Some [n] \<Rightarrow> (Some n, True)
         | Some _ \<Rightarrow> na)
      else na)"

text \<open>A fresh connection that will deliver the payloads of a script.\<close>

definition online :: "string list \<Rightarrow> websocket" where
  "online script = \<lparr>inbound = script, outbound = [], alive = True\<rparr>"

text \<open>A client of \<open>__init__\<close> whose connection is open and has sent nothing yet.\<close>

definition connected :: client where
  "connected = (init ''wss://example/ws'' ''key'')\<lparr>ws := Some (online [])\<rparr>"

text \<open>
  A Discord server that knows every channel of \<open>CHANNEL_MAPPINGS\<close>, and the bridge after
  \<open>on_ready\<close> on that server, its client connected, its SwarmIRC name \<open>bridge\<close>.
\<close>

definition guild :: discord_client where
  "guild = \<lparr>visible = fst ` set CHANNEL_MAPPINGS, refusing = {}, posted = []\<rparr>"

definition relay :: bridge where
  "relay = on_ready \<lparr>discord = guild, swarmirc = connected, swarmirc_name = Some ''bridge'',
                     bridged_channels = []\<rparr>"

text \<open>
  A client that has been through one handshake: \<open>__init__\<close>, then \<open>connect\<close> to a server
  that sends a banner, the welcome numeric for \<open>alice\<close> and the end of the MOTD.
\<close>

definition returning :: client where
  "returning =
     snd (connect (\<lambda>u. Return (online [''hello'',
                                          '':server 001 alice :Welcome to ClawSwarm, alice!'',
                                          '':server 376 alice :End of MOTD'']))
            (init ''wss://example/ws'' ''key''))"

section \<open>Dispatch never raises\<close>

lemma try_pass_returns: "fst (try_pass r) = Return ()"
  by (cases r) (auto simp: try_pass_def split: result.splits)

lemma try_pass_world: "snd (try_pass r) = snd r"
  by (cases r) (auto simp: try_pass_def split: result.splits)

lemma try_pass_eq: "try_pass r = (Return (), snd r)"
  by (simp add: prod_eq_iff try_pass_returns try_pass_world)

lemma fire_returns: "fst (fire hs args w) = Return ()"
  by (induction hs arbitrary: w) (simp_all add: try_pass_eq)

lemma fire_Cons: "fire (h # hs) args w = fire hs args (snd (h args w))"
  by (simp add: try_pass_eq)

lemma fire_eq: "fire hs args w = (Return (), foldl (\<lambda>w h. snd (h args w)) w hs)"
  by (induction hs arbitrary: w) (simp_all add: try_pass_eq)

lemma backtrack_groups:
  assumes "\<And>t g. k t = Some g \<Longrightarrow> length g = n"
    and "backtrack k cap s lo m = Some g"
  shows "length g = (if cap then Suc n else n)"
  using assms(2)
proof (induction m)
  case 0
  then show ?case using assms(1) by (auto split: if_splits option.splits)
next
  case (Suc m)
  then show ?case using assms(1) by (auto split: if_splits option.splits)
qed

lemma re_match_groups: "re_match p s = Some g \<Longrightarrow> length g = groups p"
proof (induction p arbitrary: s g)
  case Nil
  then show ?case by (simp add: groups_def)
next
  case (Cons it p)
  obtain c q cap where it: "it = (c, q, cap)" by (cases it)
  from Cons.prems it
  have "backtrack (re_match p) cap s (min_count q) (max_count c q s) = Some g" by simp
  then have "length g = (if cap then Suc (groups p) else groups p)"
    using Cons.IH by (rule backtrack_groups [rotated])
  then show ?case by (simp add: it groups_def)
qed

lemma re_search_groups: "re_search p s = Some g \<Longrightarrow> length g = groups p"
  by (induction p s rule: re_search.induct) (auto dest: re_match_groups split: option.splits)

lemma length_3: "length g = 3 \<Longrightarrow> \<exists>a b c. g = [a, b, c]"
  by (cases g; simp; cases "tl g"; simp; cases "tl (tl g)"; simp)

lemma line_re_groups: "re_match line_re s = Some g \<Longrightarrow> \<exists>a b c. g = [a, b, c]"
  by (drule re_match_groups) (simp add: groups_def line_re_def length_3)

lemma params_re_groups: "re_match params_re s = Some g \<Longrightarrow> \<exists>a b. g = [a, b]"
  by (drule re_match_groups) (auto simp: groups_def params_re_def length_Suc_conv)

lemma token_re_groups: "re_match token_re s = Some g \<Longrightarrow> \<exists>a. g = [a]"
  by (drule re_match_groups) (auto simp: groups_def token_re_def length_Suc_conv)

lemma welcome_re_groups: "re_search welcome_re s = Some g \<Longrightarrow> \<exists>a. g = [a]"
  by (drule re_search_groups) (auto simp: groups_def welcome_re_def lit_def length_Suc_conv)

lemma fire_params_returns: "fst (fire_params hs sender params w) = Return ()"
  by (auto simp: fire_params_def fire_returns split: option.splits list.splits dest: params_re_groups)

lemma parse_line_returns: "fst (parse_line H line w) = Return ()"
proof (cases "fire (H Raw) [strip line] w")
  case (Pair r w1)
  then have r: "r = Return ()" using fire_returns [of "H Raw" "[strip line]" w] by simp
  show ?thesis
  proof (cases "re_match line_re (strip line)")
    case None
    then show ?thesis using Pair r by (simp add: parse_line_def Let_def)
  next
    case (Some g)
    then obtain a b c where g: "g = [a, b, c]" by (auto dest: line_re_groups)
    have "fst (case re_match token_re c of
                 None \<Rightarrow> fire (H Part) [nick_of a, c] w1
               | Some [channel] \<Rightarrow> fire (H Part) [nick_of a, channel] w1
               | Some _ \<Rightarrow> (Raise IndexError, w1)) = Return ()"
      by (auto simp: fire_returns split: option.splits list.splits dest: token_re_groups)
    then show ?thesis using Pair r Some g
      by (simp add: parse_line_def Let_def fire_returns fire_params_returns)
  qed
qed


section \<open>The patterns on well-formed lines\<close>

lemma strip_tail:
  assumes "a \<noteq> []" "\<not> is_space (hd a)" "\<not> is_space (last a)"
  shows "strip (a @ b) = a @ rstrip b"
proof -
  from assms have 1: "dropWhile is_space (a @ b) = a @ b"
    by (cases a) simp_all
  from assms have 2: "dropWhile is_space (rev a) = rev a"
    by (cases "rev a") (simp_all add: last_rev [symmetric] hd_rev)
  have "dropWhile is_space (rev b @ rev a) = dropWhile is_space (rev b) @ rev a"
    using 2 by (simp add: dropWhile_append) 
  then show ?thesis by (simp add: strip_def rstrip_def 1)
qed

lemma backtrack_first:
  "lo \<le> n \<Longrightarrow> k (drop n s) = Some g \<Longrightarrow>
   backtrack k cap s lo n = Some (if cap then take n s # g else g)"
  by (cases n) simp_all

lemma takeWhile_run:
  assumes "\<forall>c\<in>set p. P c" "rest = [] \<or> \<not> P (hd rest)"
  shows "takeWhile P (p @ rest) = p"
  using assms by (cases rest) (simp_all add: takeWhile_append)

lemma re_match_plus:
  assumes "p \<noteq> []" "\<forall>c\<in>set p. in_cls C c" "rest = [] \<or> \<not> in_cls C (hd rest)"
    and "re_match its rest = Some g"
  shows "re_match ((C, Plus, cap) # its) (p @ rest) = Some (if cap then p # g else g)"
proof -
  have "takeWhile (in_cls C) (p @ rest) = p" using assms(2,3) by (rule takeWhile_run)
  then have m: "max_count C Plus (p @ rest) = length p" by simp
  have "backtrack (re_match its) cap (p @ rest) 1 (length p)
        = Some (if cap then take (length p) (p @ rest) # g else g)"
    using assms(1,4) by (intro backtrack_first) (simp_all add: Suc_le_eq)
  then show ?thesis using m by simp
qed

lemma re_match_chr:
  "re_match its rest = Some g \<Longrightarrow> re_match ((Chr a, Once, False) # its) (a # rest) = Some g"
  by simp

lemma re_match_star_last: "re_match [(C, Star, True)] s = Some [takeWhile (in_cls C) s]"
proof -
  have "backtrack (re_match []) True s 0 (length (takeWhile (in_cls C) s))
        = Some (if True then take (length (takeWhile (in_cls C) s)) s # [] else [])"
    by (intro backtrack_first) simp_all
  then show ?thesis by (simp add: takeWhile_eq_take [symmetric])
qed

lemma line_re_shape:
  assumes "prefix \<noteq> []" "\<forall>c\<in>set prefix. \<not> is_space c"
    and "command \<noteq> []" "\<forall>c\<in>set command. \<not> is_space c"
    and "params \<noteq> []" "\<not> is_space (hd params)"
  shows "re_match line_re ('':'' @ prefix @ '' '' @ command @ '' '' @ params)
         = Some [prefix, command, takeWhile (\<lambda>c. c \<noteq> CHR 0x0A) params]"
proof -
  have sp: "is_space CHR '' ''" by (simp add: is_space_def)
  have dot: "in_cls Dot = (\<lambda>c. c \<noteq> CHR 0x0A)" by (rule ext) simp
  have 6: "re_match [(Dot, Star, True)] params = Some [takeWhile (\<lambda>c. c \<noteq> CHR 0x0A) params]"
    by (simp only: re_match_star_last dot)
  have 5: "re_match [(Space, Plus, False), (Dot, Star, True)] ('' '' @ params)
           = Some [takeWhile (\<lambda>c. c \<noteq> CHR 0x0A) params]"
    using re_match_plus [of "'' ''" Space params "[(Dot, Star, True)]" _ False] 6 assms(5,6) sp
    by simp
  have 4: "re_match [(NonSpace, Plus, True), (Space, Plus, False), (Dot, Star, True)]
             (command @ '' '' @ params)
           = Some [command, takeWhile (\<lambda>c. c \<noteq> CHR 0x0A) params]"
    using re_match_plus [of command NonSpace "'' '' @ params" _ _ True] 5 assms(3,4) sp
    by simp
  have 3: "re_match [(Space, Plus, False), (NonSpace, Plus, True), (Space, Plus, False), (Dot, Star, True)]
             ('' '' @ command @ '' '' @ params)
           = Some [command, takeWhile (\<lambda>c. c \<noteq> CHR 0x0A) params]"
    using re_match_plus [of "'' ''" Space "command @ '' '' @ params" _ _ False] 4 assms(3,4) sp
    by (cases command) simp_all
  have 2: "re_match [(NonSpace, Plus, True), (Space, Plus, False), (NonSpace, Plus, True),
                     (Space, Plus, False), (Dot, Star, True)]
             (prefix @ '' '' @ command @ '' '' @ params)
           = Some [prefix, command, takeWhile (\<lambda>c. c \<noteq> CHR 0x0A) params]"
    using re_match_plus [of prefix NonSpace "'' '' @ command @ '' '' @ params" _ _ True] 3 assms(1,2) sp
    by simp
  show ?thesis
    unfolding line_re_def using re_match_chr [OF 2, of "CHR '':''"] by simp
qed

lemma params_re_shape:
  assumes "target \<noteq> []" "\<forall>c\<in>set target. \<not> is_space c"
  shows "re_match params_re (target @ '' :'' @ body) = Some [target, body]"
proof -
  have sp: "is_space CHR '' ''" "\<not> is_space CHR '':''" by (simp_all add: is_space_def)
  have dot: "takeWhile (in_cls DotAll) body = body" by (induction body) simp_all
  have 4: "re_match [(DotAll, Star, True)] body = Some [body]"
    by (simp only: re_match_star_last dot)
  have 3: "re_match [(Chr CHR '':'', Once, False), (DotAll, Star, True)] ('':'' @ body) = Some [body]"
    using re_match_chr [OF 4, of "CHR '':''"] by simp
  have 2: "re_match [(Space, Plus, False), (Chr CHR '':'', Once, False), (DotAll, Star, True)]
             ('' '' @ '':'' @ body) = Some [body]"
    using re_match_plus [of "'' ''" Space "'':'' @ body" _ _ False] 3 sp by simp
  show ?thesis
    unfolding params_re_def
    using re_match_plus [of target NonSpace "'' '' @ '':'' @ body" _ _ True] 2 assms sp by simp
qed


lemma parse_line_blank: "strip line = [] \<Longrightarrow> parse_line H line w = (Return (), w)"
  by (simp add: parse_line_def)

lemma parse_line_nomatch:
  "strip line \<noteq> [] \<Longrightarrow> re_match line_re (strip line) = None \<Longrightarrow>
   parse_line H line w = fire (H Raw) [strip line] w"
  by (simp add: parse_line_def fire_eq)

lemma parse_line_match:
  assumes "strip line \<noteq> []" "re_match line_re (strip line) = Some [prefix, command, params]"
  shows "parse_line H line w =
    (let w1 = snd (fire (H Raw) [strip line] w); sender = nick_of prefix in
     if command = ''PRIVMSG'' then fire_params (H Message) sender params w1
     else if command = ''JOIN'' then fire (H Join) [sender, strip params] w1
     else if command = ''PART'' then
       (case re_match token_re params of
          None \<Rightarrow> fire (H Part) [sender, params] w1
        | Some [channel] \<Rightarrow> fire (H Part) [sender, channel] w1
        | Some _ \<Rightarrow> (Raise IndexError, w1))
     else if command = ''QUERY'' then fire_params (H Query) sender params w1
     else if command = ''CMD'' then fire_params (H Cmd) sender params w1
     else (Return (), w1))"
  using assms by (simp add: parse_line_def fire_eq Let_def)

lemma fire_params_event:
  "\<exists>ev. (ev = None \<or> (\<exists>a b. ev = Some (k, [sender, a, b]))) \<and>
        (\<forall>H w. fire_params (H k) sender params (w::'w) = dispatch H ev w)"
proof (cases "re_match params_re params")
  case None
  then have "\<forall>H (w::'w). fire_params (H k) sender params w = dispatch H None w"
    by (simp add: fire_params_def)
  then show ?thesis by blast
next
  case (Some g)
  then obtain a b where "g = [a, b]" by (auto dest: params_re_groups)
  with Some have "\<forall>H (w::'w). fire_params (H k) sender params w = dispatch H (Some (k, [sender, a, b])) w"
    by (simp add: fire_params_def)
  then show ?thesis by blast
qed

lemma part_event:
  "\<exists>ch. \<forall>H (w::'w). (case re_match token_re params of
          None \<Rightarrow> fire (H Part) [sender, params] w
        | Some [channel] \<Rightarrow> fire (H Part) [sender, channel] w
        | Some _ \<Rightarrow> (Raise IndexError, w)) = dispatch H (Some (Part, [sender, ch])) w"
proof (cases "re_match token_re params")
  case None
  then show ?thesis by auto
next
  case (Some g)
  then obtain a where "g = [a]" by (auto dest: token_re_groups)
  with Some show ?thesis by auto
qed

lemma parse_line_event:
  assumes "strip line \<noteq> []"
  shows "\<exists>ev. structured ev \<and>
           (\<forall>H w. parse_line H line (w::'w) = dispatch H ev (snd (fire (H Raw) [strip line] w)))"
proof (cases "re_match line_re (strip line)")
  case None
  with assms have "\<forall>H (w::'w). parse_line H line w = dispatch H None (snd (fire (H Raw) [strip line] w))"
    by (simp add: parse_line_nomatch fire_eq)
  moreover have "structured None" by (simp add: structured_def)
  ultimately show ?thesis by blast
next
  case (Some g)
  then obtain a b c where g: "g = [a, b, c]" by (auto dest: line_re_groups)
  note pl = parse_line_match [OF assms Some [unfolded g]]
  consider "b = ''PRIVMSG''" | "b = ''JOIN''" | "b = ''PART''" | "b = ''QUERY''" | "b = ''CMD''"
    | "b \<notin> {''PRIVMSG'', ''JOIN'', ''PART'', ''QUERY'', ''CMD''}" by auto
  then show ?thesis
  proof cases
    case 1
    obtain ev where ev: "ev = None \<or> (\<exists>x y. ev = Some (Message, [nick_of a, x, y]))"
      "\<forall>H (w::'w). fire_params (H Message) (nick_of a) c w = dispatch H ev w"
      using fire_params_event [where ?'w = 'w and k = Message and sender = "nick_of a" and params = c] by blast
    from ev(1) have "structured ev" by (auto simp: structured_def)
    moreover have "\<forall>H (w::'w). parse_line H line w = dispatch H ev (snd (fire (H Raw) [strip line] w))"
      using ev(2) 1 by (simp add: pl Let_def)
    ultimately show ?thesis by blast
  next
    case 2
    have "structured (Some (Join, [nick_of a, strip c]))" by (simp add: structured_def)
    moreover have "\<forall>H (w::'w). parse_line H line w
        = dispatch H (Some (Join, [nick_of a, strip c])) (snd (fire (H Raw) [strip line] w))"
      using 2 by (simp add: pl Let_def)
    ultimately show ?thesis by blast
  next
    case 3
    obtain ch where ch: "\<forall>H (w::'w). (case re_match token_re c of
          None \<Rightarrow> fire (H Part) [nick_of a, c] w
        | Some [channel] \<Rightarrow> fire (H Part) [nick_of a, channel] w
        | Some _ \<Rightarrow> (Raise IndexError, w)) = dispatch H (Some (Part, [nick_of a, ch])) w"
      using part_event [where ?'w = 'w and params = c and sender = "nick_of a"] by blast
    have "structured (Some (Part, [nick_of a, ch]))" by (simp add: structured_def)
    moreover have "\<forall>H (w::'w). parse_line H line w
        = dispatch H (Some (Part, [nick_of a, ch])) (snd (fire (H Raw) [strip line] w))"
      using 3 ch by (simp add: pl Let_def)
    ultimately show ?thesis by blast
  next
    case 4
    obtain ev where ev: "ev = None \<or> (\<exists>x y. ev = Some (Query, [nick_of a, x, y]))"
      "\<forall>H (w::'w). fire_params (H Query) (nick_of a) c w = dispatch H ev w"
      using fire_params_event [where ?'w = 'w and k = Query and sender = "nick_of a" and params = c] by blast
    from ev(1) have "structured ev" by (auto simp: structured_def)
    moreover have "\<forall>H (w::'w). parse_line H line w = dispatch H ev (snd (fire (H Raw) [strip line] w))"
      using ev(2) 4 by (simp add: pl Let_def)
    ultimately show ?thesis by blast
  next
    case 5
    obtain ev where ev: "ev = None \<or> (\<exists>x y. ev = Some (Cmd, [nick_of a, x, y]))"
      "\<forall>H (w::'w). fire_params (H Cmd) (nick_of a) c w = dispatch H ev w"
      using fire_params_event [where ?'w = 'w and k = Cmd and sender = "nick_of a" and params = c] by blast
    from ev(1) have "structured ev" by (auto simp: structured_def)
    moreover have "\<forall>H (w::'w). parse_line H line w = dispatch H ev (snd (fire (H Raw) [strip line] w))"
      using ev(2) 5 by (simp add: pl Let_def)
    ultimately show ?thesis by blast
  next
    case 6
    then have "\<forall>H (w::'w). parse_line H line w = dispatch H None (snd (fire (H Raw) [strip line] w))"
      by (simp add: pl Let_def)
    moreover have "structured None" by (simp add: structured_def)
    ultimately show ?thesis by blast
  qed
qed

lemma newline_space: "is_space (CHR 0x0A)"
  by (simp add: is_space_def)

lemma takeWhile_params:
  assumes "\<forall>c\<in>set target. \<not> is_space c"
  shows "takeWhile (\<lambda>c. c \<noteq> CHR 0x0A) (target @ '' :'' @ body)
         = target @ '' :'' @ takeWhile (\<lambda>c. c \<noteq> CHR 0x0A) body"
proof -
  have "\<forall>c\<in>set target. c \<noteq> CHR 0x0A" using assms newline_space by auto
  then show ?thesis by (simp add: takeWhile_append)
qed

lemma parse_line_privmsg:
  assumes "strip line = l" "l \<noteq> []"
    and "re_match line_re l = Some [prefix, ''PRIVMSG'', params]"
    and "re_match params_re params = Some [target, body]"
  shows "parse_line H line w
         = fire (H Message) [nick_of prefix, target, body] (snd (fire (H Raw) [l] w))"
  using assms by (simp add: parse_line_def fire_eq fire_params_def Let_def)

lemma privmsg_dispatch:
  assumes "prefix \<noteq> []" "\<forall>c\<in>set prefix. \<not> is_space c"
    and "target \<noteq> []" "\<forall>c\<in>set target. \<not> is_space c"
  shows "parse_line H ('':'' @ prefix @ '' PRIVMSG '' @ target @ '' :'' @ body) w
         = fire (H Message)
             [nick_of prefix, target, takeWhile (\<lambda>c. c \<noteq> CHR 0x0A) (rstrip body)]
             (snd (fire (H Raw) ['':'' @ prefix @ '' PRIVMSG '' @ target @ '' :'' @ rstrip body] w))"
proof (rule parse_line_privmsg)
  let ?head = "'':'' @ prefix @ '' PRIVMSG '' @ target @ '' :''"
  let ?cut = "takeWhile (\<lambda>c. c \<noteq> CHR 0x0A) (rstrip body)"
  have "\<not> is_space CHR '':''" by (simp add: is_space_def)
  then have "strip (?head @ body) = ?head @ rstrip body"
    by (intro strip_tail) simp_all
  then show "strip ('':'' @ prefix @ '' PRIVMSG '' @ target @ '' :'' @ body)
             = '':'' @ prefix @ '' PRIVMSG '' @ target @ '' :'' @ rstrip body"
    by simp
  show "'':'' @ prefix @ '' PRIVMSG '' @ target @ '' :'' @ rstrip body \<noteq> []" by simp
  have "re_match line_re ('':'' @ prefix @ '' '' @ ''PRIVMSG'' @ '' '' @ (target @ '' :'' @ rstrip body))
        = Some [prefix, ''PRIVMSG'', takeWhile (\<lambda>c. c \<noteq> CHR 0x0A) (target @ '' :'' @ rstrip body)]"
    using assms by (intro line_re_shape) (simp_all add: is_space_def)
  then show "re_match line_re ('':'' @ prefix @ '' PRIVMSG '' @ target @ '' :'' @ rstrip body)
             = Some [prefix, ''PRIVMSG'', target @ '' :'' @ ?cut]"
    using takeWhile_params [OF assms(4), of "rstrip body"] by simp
  show "re_match params_re (target @ '' :'' @ ?cut) = Some [target, ?cut]"
    using assms(3,4) by (rule params_re_shape)
qed

section \<open>Malformed lines\<close>

lemma demo_simps:
  "demo Raw = [logger ''raw'']" "demo Message = [logger ''message'']"
  "demo Join = [logger ''join'']" "demo Part = [logger ''part'']"
  "demo Query = [logger ''query'']" "demo Cmd = [logger ''cmd'']"
  by (simp_all add: demo_def on_raw_def on_message_def on_join_def on_part_def on_query_def
      on_cmd_def register_def no_handlers_def)

lemma ex1: "re_match line_re ''PING :x'' = None"
  by (simp add: line_re_def)

lemma ex2: "re_match line_re '':srv 372 alice :motd'' = Some [''srv'', ''372'', ''alice :motd'']"
  by (simp add: line_re_def is_space_def)

lemma ex3: "re_match line_re '':alice PRIVMSG #general'' = Some [''alice'', ''PRIVMSG'', ''#general'']"
  by (simp add: line_re_def is_space_def)

lemma ex3': "re_match params_re ''#general'' = None"
  by (simp add: params_re_def is_space_def)

lemma strip_ex: "strip ''PING :x'' = ''PING :x''" "strip '':srv 372 alice :motd'' = '':srv 372 alice :motd''"
   "strip '':alice PRIVMSG #general'' = '':alice PRIVMSG #general''"
  by (simp_all add: strip_def is_space_def)

text \<open>
  Claim C3. For every malformed line (no \<open>:sender COMMAND\<close> prefix, an unknown command,
  or truncated parameters) \<open>_parse_line\<close> calls the raw handlers only, with the stripped
  line, and no handler of a structured event; it returns and never raises. (A blank line
  calls no handler at all.)
\<close>

theorem malformed_raw_only:
  assumes "malformed line"
  shows "parse_line H line w =
           (if strip line = [] then (Return (), w) else fire (H Raw) [strip line] w)
         \<and> fst (parse_line H line w) = Return ()"
proof -
  have "parse_line H line w =
          (if strip line = [] then (Return (), w) else fire (H Raw) [strip line] w)"
  proof (cases "strip line = []")
    case True
    then show ?thesis by (simp add: parse_line_blank)
  next
    case False
    show ?thesis
    proof (cases "re_match line_re (strip line)")
      case None
      with False show ?thesis by (simp add: parse_line_nomatch)
    next
      case (Some g)
      then obtain a b c where g: "g = [a, b, c]" by (auto dest: line_re_groups)
      from assms Some g
      have m: "if b \<in> {''PRIVMSG'', ''QUERY'', ''CMD''} then re_match params_re c = None
               else b \<notin> {''JOIN'', ''PART''}"
        by (simp add: malformed_def)
      have "parse_line H line w = (Return (), snd (fire (H Raw) [strip line] w))"
        using m unfolding parse_line_match [OF False Some [unfolded g]]
        by (auto simp: Let_def fire_params_def split: if_splits)
      then show ?thesis using False by (simp add: fire_eq)
    qed
  qed
  moreover have "fst (parse_line H line w) = Return ()" by (rule parse_line_returns)
  ultimately show ?thesis by blast
qed

theorem malformed_raw_only_witness:
  "malformed ''PING :x'' \<and> parse_line demo ''PING :x'' [] = (Return (), [[''raw'', ''PING :x'']])
   \<and> malformed '':srv 372 alice :motd''
   \<and> parse_line demo '':srv 372 alice :motd'' [] = (Return (), [[''raw'', '':srv 372 alice :motd'']])
   \<and> malformed '':alice PRIVMSG #general''
   \<and> parse_line demo '':alice PRIVMSG #general'' []
       = (Return (), [[''raw'', '':alice PRIVMSG #general'']])"
proof -
  have 1: "malformed ''PING :x''" by (simp add: malformed_def strip_ex ex1)
  have 2: "malformed '':srv 372 alice :motd''" by (simp add: malformed_def strip_ex ex2)
  have 3: "malformed '':alice PRIVMSG #general''" by (simp add: malformed_def strip_ex ex3 ex3')
  show ?thesis
    using 1 2 3 malformed_raw_only [OF 1, of demo "[]"] malformed_raw_only [OF 2, of demo "[]"]
      malformed_raw_only [OF 3, of demo "[]"]
    by (simp add: strip_ex demo_simps logger_def try_pass_def)
qed

section \<open>Handler isolation\<close>

text \<open>
  Claim C4. For one incoming PRIVMSG line and three registered message handlers of which
  the second raises, \<open>_parse_line\<close> calls the first, then the second, then the third on the
  world the second left behind, and returns: the exception goes no further.
\<close>

theorem handler_isolation:
  assumes "prefix \<noteq> []" "\<forall>c\<in>set prefix. \<not> is_space c"
    and "target \<noteq> []" "\<forall>c\<in>set target. \<not> is_space c"
    and "line = '':'' @ prefix @ '' PRIVMSG '' @ target @ '' :'' @ body"
    and "args = [nick_of prefix, target, takeWhile (\<lambda>c. c \<noteq> CHR 0x0A) (rstrip body)]"
    and "H Message = [h1, h2, h3]"
    and "w0 = snd (fire (H Raw) [strip line] w)"
    and "h2 args (snd (h1 args w0)) = (Raise e, w2)"
  shows "parse_line H line w = (Return (), snd (h3 args w2))"
proof -
  have "\<not> is_space CHR '':''" by (simp add: is_space_def)
  then have "strip (('':'' @ prefix @ '' PRIVMSG '' @ target @ '' :'') @ body)
             = ('':'' @ prefix @ '' PRIVMSG '' @ target @ '' :'') @ rstrip body"
    by (intro strip_tail) simp_all
  then have s: "strip line = '':'' @ prefix @ '' PRIVMSG '' @ target @ '' :'' @ rstrip body"
    by (simp add: assms(5))
  have "parse_line H line w = fire [h1, h2, h3] args w0"
    unfolding assms(5) privmsg_dispatch [OF assms(1-4)]
    using assms(6,7,8) s by (simp add: assms(5))
  also have "\<dots> = (Return (), snd (h3 args w2))"
    using assms(9) by (simp add: fire_eq)
  finally show ?thesis .
qed

theorem handler_isolation_witness:
  "parse_line three '':alice PRIVMSG #general :hi'' []
   = (Return (), [[''first'', ''alice'', ''#general'', ''hi''],
                  [''second'', ''alice'', ''#general'', ''hi''],
                  [''third'', ''alice'', ''#general'', ''hi'']])
   \<and> faulty ''second'' [''alice'', ''#general'', ''hi''] [[''first'', ''alice'', ''#general'', ''hi'']]
     = (Raise (Exception ''second''),
        [[''first'', ''alice'', ''#general'', ''hi''], [''second'', ''alice'', ''#general'', ''hi'']])"
proof -
  have m: "three Message = [logger ''first'', faulty ''second'', logger ''third'']"
    and r: "three Raw = []"
    by (simp_all add: three_def on_message_def register_def no_handlers_def)
  have a: "[''alice'', ''#general'', ''hi'']
           = [nick_of ''alice'', ''#general'', takeWhile (\<lambda>c. c \<noteq> CHR 0x0A) (rstrip ''hi'')]"
    by (simp add: nick_of_def rstrip_def is_space_def)
  have f: "faulty ''second'' [''alice'', ''#general'', ''hi'']
             (snd (logger ''first'' [''alice'', ''#general'', ''hi'']
                (snd (fire (three Raw) [strip '':alice PRIVMSG #general :hi''] [])))) 
           = (Raise (Exception ''second''),
        [[''first'', ''alice'', ''#general'', ''hi''], [''second'', ''alice'', ''#general'', ''hi'']])"
    by (simp add: r faulty_def logger_def)
  have "parse_line three '':alice PRIVMSG #general :hi'' [] = 
     (Return (), snd (logger ''third'' [''alice'', ''#general'', ''hi'']
        [[''first'', ''alice'', ''#general'', ''hi''], [''second'', ''alice'', ''#general'', ''hi'']]))"
    by (rule handler_isolation [where prefix = "''alice''" and target = "''#general''" and body = "''hi''",
          OF _ _ _ _ _ a m refl f]) (simp_all add: is_space_def)
  then show ?thesis by (simp add: logger_def faulty_def)
qed

section \<open>Raw first, then at most one structured event\<close>

text \<open>
  Claim C6 as stated fails at a line of whitespace. The line of one space is not empty,
  and \<open>_parse_line\<close> calls no raw handler for it:
  the log stays empty, where a call of the raw handlers would have written to it.
\<close>

theorem blank_line_skips_raw:
  "'' '' \<noteq> [] \<and> parse_line demo '' '' [] = (Return (), [])
   \<and> fire (demo Raw) ['' ''] [] = (Return (), [[''raw'', '' '']])"
  by (simp add: parse_line_def strip_def is_space_def demo_simps logger_def try_pass_def)

text \<open>
  Claim C6, amended. For every line that is not empty once stripped, \<open>_parse_line\<close> calls
  the raw handlers first, with the stripped line, and then the handlers of at most one
  structured event, a message, join, part, query or cmd event that depends on the line
  alone; a line the line pattern does not match calls the raw handlers only.
\<close>

theorem raw_first_then_one_event:
  assumes "strip line \<noteq> []"
  shows "(\<exists>ev. structured ev \<and>
            (\<forall>H w. parse_line H line (w::'w) = dispatch H ev (snd (fire (H Raw) [strip line] w))))
         \<and> (re_match line_re (strip line) = None \<longrightarrow>
            (\<forall>H w. parse_line H line (w::'w) = fire (H Raw) [strip line] w))"
  using assms parse_line_event [OF assms, where ?'w = 'w] by (simp add: parse_line_nomatch)

theorem raw_first_then_one_event_witness:
  "strip '':alice JOIN #general '' \<noteq> []
   \<and> (\<exists>ev. structured ev \<and>
         (\<forall>H w. parse_line H '':alice JOIN #general '' (w::string list list)
                = dispatch H ev (snd (fire (H Raw) [strip '':alice JOIN #general ''] w))))
   \<and> strip ''PING :x'' \<noteq> [] \<and> re_match line_re (strip ''PING :x'') = None
   \<and> (\<forall>H w. parse_line H ''PING :x'' (w::string list list) = fire (H Raw) [strip ''PING :x''] w)"
proof -
  have 1: "strip '':alice JOIN #general '' \<noteq> []" by (simp add: strip_def is_space_def)
  have 2: "strip ''PING :x'' \<noteq> []" by (simp add: strip_ex)
  have 3: "re_match line_re (strip ''PING :x'') = None" by (simp add: strip_ex ex1)
  show ?thesis
    using 1 2 3 raw_first_then_one_event [OF 1, where ?'w = "string list list"]
      raw_first_then_one_event [OF 2, where ?'w = "string list list"]
    by blast
qed

lemma join_example:
  "parse_line demo '':alice!u@h JOIN #general '' []
   = (Return (), [[''raw'', '':alice!u@h JOIN #general''], [''join'', ''alice'', ''#general'']])"
  by (simp add: parse_line_def strip_def is_space_def demo_simps logger_def try_pass_def
      line_re_def nick_of_def)

section \<open>The body of a PRIVMSG\<close>

text \<open>
  Claim C7 at a body with a newline in it. The line pattern takes the parameters with
  \<open>(.*)\<close> and without \<open>re.DOTALL\<close>, so they end before the first newline of the line: of
  the body \<open>hello\nworld\<close> the message handlers receive \<open>hello\<close>.
\<close>

theorem privmsg_body_stops_at_newline:
  "parse_line demo ('':alice PRIVMSG #general :hello'' @ [CHR 0x0A] @ ''world'') []
   = (Return (), [[''raw'', '':alice PRIVMSG #general :hello'' @ [CHR 0x0A] @ ''world''],
                  [''message'', ''alice'', ''#general'', ''hello'']])"
  by (simp add: parse_line_def strip_def is_space_def demo_simps logger_def try_pass_def
      line_re_def params_re_def fire_params_def nick_of_def)

section \<open>The handshake\<close>

lemma absorb_eq:
  "absorb na msg =
     (if numeric_001 msg then
        (case re_search welcome_re (strip msg) of
           None \<Rightarrow> (fst na, True)
         | Some g \<Rightarrow> (Some (hd g), True))
      else na)"
  by (auto simp: absorb_def split: option.splits dest: welcome_re_groups)

lemma on_welcome_absorb:
  "numeric_001 msg \<Longrightarrow>
   \<exists>s'. on_welcome (strip msg) s = (Return (), s') \<and> ws s' = ws s
        \<and> (name s', authenticated s') = absorb (name s, authenticated s) msg"
  by (cases "re_search welcome_re (strip msg)")
     (auto simp: on_welcome_def absorb_eq dest: welcome_re_groups)

lemma auth_loop_Nil:
  assumes "ws self = Some w" "alive w" "inbound w = []"
  shows "\<exists>s'. auth_loop self = (Raise ConnectionClosed, s')"
  using assms by (subst auth_loop.simps) (simp add: recv_def ws_recv_def)

lemma auth_loop_Cons:
  assumes "ws self = Some w" "alive w" "inbound w = m # ms"
  shows "\<exists>s1. ws s1 = Some (w\<lparr>inbound := ms\<rparr>)
           \<and> (name s1, authenticated s1) = absorb (name self, authenticated self) m
           \<and> auth_loop self = (if terminator m then (Return (), s1) else auth_loop s1)"
proof (cases "numeric_001 m")
  case True
  let ?s0 = "self\<lparr>ws := Some (w\<lparr>inbound := ms\<rparr>)\<rparr>"
  from on_welcome_absorb [OF True, of ?s0]
  obtain s1 where s1: "on_welcome (strip m) ?s0 = (Return (), s1)" "ws s1 = ws ?s0"
    "(name s1, authenticated s1) = absorb (name ?s0, authenticated ?s0) m" by blast
  have "auth_loop self = (if terminator m then (Return (), s1) else auth_loop s1)"
    using assms True s1(1)
    by (subst auth_loop.simps) (simp add: recv_def ws_recv_def terminator_def numeric_001_def)
  with s1 show ?thesis by auto
next
  case False
  let ?s0 = "self\<lparr>ws := Some (w\<lparr>inbound := ms\<rparr>)\<rparr>"
  have "auth_loop self = (if terminator m then (Return (), ?s0) else auth_loop ?s0)"
    using assms False
    by (subst auth_loop.simps) (simp add: recv_def ws_recv_def terminator_def numeric_001_def)
  moreover have "(name ?s0, authenticated ?s0) = absorb (name self, authenticated self) m"
    using False by (simp add: absorb_eq)
  ultimately show ?thesis by (intro exI [of _ ?s0]) simp
qed

lemma auth_loop_handshake:
  assumes "ws self = Some w" "alive w" "inbound w = ms"
  shows "if \<exists>m\<in>set ms. terminator m
         then \<exists>s'. auth_loop self = (Return (), s') \<and>
                (name s', authenticated s')
                = foldl absorb (name self, authenticated self) (handshake_lines ms)
         else \<exists>s'. auth_loop self = (Raise ConnectionClosed, s')"
  using assms
proof (induction ms arbitrary: self w)
  case Nil
  then show ?case using auth_loop_Nil by simp
next
  case (Cons m ms)
  from auth_loop_Cons [OF Cons.prems]
  obtain s1 where s1: "ws s1 = Some (w\<lparr>inbound := ms\<rparr>)"
    "(name s1, authenticated s1) = absorb (name self, authenticated self) m"
    "auth_loop self = (if terminator m then (Return (), s1) else auth_loop s1)" by blast
  show ?case
  proof (cases "terminator m")
    case True
    with s1 show ?thesis by simp
  next
    case False
    have "alive (w\<lparr>inbound := ms\<rparr>)" "inbound (w\<lparr>inbound := ms\<rparr>) = ms"
      using Cons.prems by simp_all
    from Cons.IH [OF s1(1) this]
    have "if \<exists>m\<in>set ms. terminator m
          then \<exists>s'. auth_loop s1 = (Return (), s') \<and>
                 (name s', authenticated s')
                 = foldl absorb (absorb (name self, authenticated self) m) (handshake_lines ms)
          else \<exists>s'. auth_loop s1 = (Raise ConnectionClosed, s')"
      by (simp only: s1(2))
    with False s1(3) show ?thesis by simp
  qed
qed


lemma connect_handshake:
  assumes "dial (url self) = Return w" "alive w" "inbound w = banner # rest"
  shows "if \<exists>m\<in>set rest. terminator m
         then \<exists>s'. connect dial self = (Return (authenticated s'), s') \<and>
                (name s', authenticated s')
                = foldl absorb (name self, authenticated self) (handshake_lines rest)
         else \<exists>s'. connect dial self = (Raise ConnectionClosed, s')"
proof -
  let ?w2 = "w\<lparr>inbound := rest, outbound := outbound w @ [''AUTH '' @ api_key self]\<rparr>"
  let ?s2 = "self\<lparr>ws := Some ?w2\<rparr>"
  have c: "connect dial self =
             (case auth_loop ?s2 of
                (Raise e, s3) \<Rightarrow> (Raise e, s3)
              | (Return u, s3) \<Rightarrow> (Return (authenticated s3), s3))"
    using assms by (simp add: connect_def recv_def ws_recv_def raw_send_def ws_send_def)
  have "ws ?s2 = Some ?w2" "alive ?w2" "inbound ?w2 = rest" using assms(2) by simp_all
  from auth_loop_handshake [OF this]
  show ?thesis unfolding c by (auto split: if_splits)
qed

lemma foldl_absorb_authenticated:
  "snd (foldl absorb na ms) = (snd na \<or> (\<exists>m\<in>set ms. numeric_001 m))"
  by (induction ms arbitrary: na) (auto simp: absorb_eq split: option.splits)

lemma foldl_absorb_name:
  "\<forall>m\<in>set ms. numeric_001 m \<longrightarrow> re_search welcome_re (strip m) = None \<Longrightarrow>
   fst (foldl absorb na ms) = fst na"
  by (induction ms arbitrary: na) (auto simp: absorb_eq split: option.splits)

lemma strip_alice:
  "strip '':server 001 alice :Welcome to ClawSwarm, alice!'' = '':server 001 alice :Welcome to ClawSwarm, alice!''"
  "strip '':server 376 alice :End of MOTD'' = '':server 376 alice :End of MOTD''"
  by (simp_all add: strip_def is_space_def)

lemma alice_lines:
  "\<not> terminator '':server 001 alice :Welcome to ClawSwarm, alice!''"
  "terminator '':server 376 alice :End of MOTD''"
  "numeric_001 '':server 001 alice :Welcome to ClawSwarm, alice!''"
  "\<not> numeric_001 '':server 376 alice :End of MOTD''"
  by (simp_all add: terminator_def numeric_001_def strip_alice startswith_def)

text \<open>
  Claim C10 as stated fails on a client that connects a second time. \<open>connect\<close> never
  resets \<open>authenticated\<close>: after one handshake the flag is set, and a second \<open>connect\<close>
  to a server that sends a banner and the end of the MOTD returns \<open>True\<close>, though the one
  payload received after \<open>AUTH\<close> does not contain \<open>001\<close>.
\<close>

theorem reconnect_without_001:
  "authenticated returning
   \<and> fst (connect (\<lambda>u. Return (online [''hello'', '':server 376 alice :End of MOTD'']))
            returning) = Return True
   \<and> \<not> numeric_001 '':server 376 alice :End of MOTD''"
proof -
  let ?l1 = "'':server 001 alice :Welcome to ClawSwarm, alice!''"
  let ?l2 = "'':server 376 alice :End of MOTD''"
  let ?d1 = "\<lambda>u::string. Return (online [''hello'', ?l1, ?l2]) :: websocket result"
  let ?d2 = "\<lambda>u::string. Return (online [''hello'', ?l2]) :: websocket result"
  let ?new = "init ''wss://example/ws'' ''key''"
  have "?d1 (url ?new) = Return (online [''hello'', ?l1, ?l2])" "alive (online [''hello'', ?l1, ?l2])"
    "inbound (online [''hello'', ?l1, ?l2]) = ''hello'' # [?l1, ?l2]"
    by (simp_all add: online_def)
  from connect_handshake [of ?d1 ?new _ "''hello''", OF this]
  obtain s1 where s1: "connect ?d1 ?new = (Return (authenticated s1), s1)"
    "(name s1, authenticated s1)
     = foldl absorb (name ?new, authenticated ?new) (handshake_lines [?l1, ?l2])"
    using alice_lines by auto
  have r: "returning = s1" by (simp add: returning_def s1(1))
  have "snd (foldl absorb (name ?new, authenticated ?new) (handshake_lines [?l1, ?l2]))"
    unfolding foldl_absorb_authenticated using alice_lines by simp
  with s1(2) have a: "authenticated returning" unfolding r by (metis snd_conv)
  have "?d2 (url returning) = Return (online [''hello'', ?l2])" "alive (online [''hello'', ?l2])"
    "inbound (online [''hello'', ?l2]) = ''hello'' # [?l2]"
    by (simp_all add: online_def)
  from connect_handshake [of ?d2 returning _ "''hello''", OF this]
  obtain s2 where s2: "connect ?d2 returning = (Return (authenticated s2), s2)"
    "(name s2, authenticated s2)
     = foldl absorb (name returning, authenticated returning) (handshake_lines [?l2])"
    using alice_lines by auto
  have "snd (foldl absorb (name returning, authenticated returning) (handshake_lines [?l2]))"
    unfolding foldl_absorb_authenticated using a by simp
  with s2(2) have "authenticated s2" by (metis snd_conv)
  with a alice_lines show ?thesis by (simp add: s2(1))
qed

text \<open>
  Claim C10, amended. On a connection that delivers a banner and then the payloads
  \<open>rest\<close>, \<open>connect\<close> returns \<open>True\<close> if and only if some payload of \<open>rest\<close> contains
  \<open>376\<close> or \<open>422\<close> and either the client was authenticated already when \<open>connect\<close> was
  called or some payload no later than the first such one contains \<open>001\<close>, anywhere in it.
  If \<open>connect\<close> returns \<open>True\<close> and none of those payloads with \<open>001\<close> matches the
  welcome pattern, the client is authenticated and its name is what it was before:
  \<open>None\<close> on a client that had none.
\<close>

theorem connect_result:
  assumes "dial (url self) = Return w" "alive w" "inbound w = banner # rest"
  shows "(fst (connect dial self) = Return True)
           = ((\<exists>m\<in>set rest. terminator m)
              \<and> (authenticated self \<or> (\<exists>m\<in>set (handshake_lines rest). numeric_001 m)))
         \<and> (fst (connect dial self) = Return True
              \<and> (\<forall>m\<in>set (handshake_lines rest).
                    numeric_001 m \<longrightarrow> re_search welcome_re (strip m) = None)
            \<longrightarrow> authenticated (snd (connect dial self))
                \<and> name (snd (connect dial self)) = name self)"
proof (cases "\<exists>m\<in>set rest. terminator m")
  case True
  with connect_handshake [of dial self w banner rest, OF assms(1-3)]
  obtain s' where s': "connect dial self = (Return (authenticated s'), s')"
    "(name s', authenticated s')
     = foldl absorb (name self, authenticated self) (handshake_lines rest)" by auto
  from s'(2) have a: "authenticated s'
      = (authenticated self \<or> (\<exists>m\<in>set (handshake_lines rest). numeric_001 m))"
    using foldl_absorb_authenticated [of "(name self, authenticated self)" "handshake_lines rest"]
    by (metis snd_conv)
  have n: "name s' = name self"
    if "\<forall>m\<in>set (handshake_lines rest). numeric_001 m \<longrightarrow> re_search welcome_re (strip m) = None"
    using foldl_absorb_name [OF that, of "(name self, authenticated self)"] s'(2)
    by (metis fst_conv)
  show ?thesis using True a n by (auto simp: s'(1))
next
  case False
  with connect_handshake [of dial self w banner rest, OF assms(1-3)]
  obtain s' where "connect dial self = (Raise ConnectionClosed, s')" by auto
  with False show ?thesis by simp
qed

theorem connect_result_witness:
  "(\<exists>m\<in>set ['':srv 372 alice :build 10013'', '':srv 376 alice :End of MOTD'']. terminator m)
   \<and> \<not> authenticated (init ''wss://example/ws'' ''key'')
   \<and> (\<exists>m\<in>set (handshake_lines ['':srv 372 alice :build 10013'', '':srv 376 alice :End of MOTD'']).
         numeric_001 m)
   \<and> fst (connect (\<lambda>u. Return (online [''hello'', '':srv 372 alice :build 10013'',
                                         '':srv 376 alice :End of MOTD'']))
             (init ''wss://example/ws'' ''key'')) = Return True
   \<and> authenticated (snd (connect (\<lambda>u. Return (online [''hello'', '':srv 372 alice :build 10013'',
                                         '':srv 376 alice :End of MOTD'']))
             (init ''wss://example/ws'' ''key'')))
   \<and> name (snd (connect (\<lambda>u. Return (online [''hello'', '':srv 372 alice :build 10013'',
                                         '':srv 376 alice :End of MOTD'']))
             (init ''wss://example/ws'' ''key''))) = None
   \<and> fst (connect (\<lambda>u. Return (online [''hello'', '':srv 372 alice :build 10013'']))
             (init ''wss://example/ws'' ''key'')) \<noteq> Return True"
proof -
  let ?l1 = "'':srv 372 alice :build 10013''"
  let ?l2 = "'':srv 376 alice :End of MOTD''"
  let ?w = "online [''hello'', ?l1, ?l2]"
  let ?dial = "\<lambda>u::string. Return ?w :: websocket result"
  let ?w' = "online [''hello'', ?l1]"
  let ?dial' = "\<lambda>u::string. Return ?w' :: websocket result"
  let ?self = "init ''wss://example/ws'' ''key''"
  have st: "strip ?l1 = ?l1" "strip ?l2 = ?l2" by (simp_all add: strip_def is_space_def)
  have t: "\<not> terminator ?l1" "terminator ?l2" "numeric_001 ?l1" "\<not> numeric_001 ?l2"
    by (simp_all add: terminator_def numeric_001_def st startswith_def)
  have n: "re_search welcome_re ?l1 = None"
    by (simp add: welcome_re_def lit_def)
  have h: "?dial (url ?self) = Return ?w" "alive ?w" "inbound ?w = ''hello'' # [?l1, ?l2]"
    and h': "?dial' (url ?self) = Return ?w'" "alive ?w'" "inbound ?w' = ''hello'' # [?l1]"
    and f: "\<not> authenticated ?self" "name ?self = None"
    by (simp_all add: online_def init_def)
  have b: "(\<exists>m\<in>set [?l1, ?l2]. terminator m)" "(\<exists>m\<in>set (handshake_lines [?l1, ?l2]). numeric_001 m)"
    "\<not> (\<exists>m\<in>set [?l1]. terminator m)"
    using t by simp_all
  have c: "\<forall>m\<in>set (handshake_lines [?l1, ?l2]).
             numeric_001 m \<longrightarrow> re_search welcome_re (strip m) = None"
    using t n st by simp
  from connect_result [of ?dial ?self, OF h] connect_result [of ?dial' ?self, OF h'] b c f
  show ?thesis by metis
qed

text \<open>
  Claim C5. Whatever the banner, on a transport that delivers the banner, then
  \<open>:server 001 alice :Welcome to ClawSwarm, alice!\<close>, then \<open>:server 376 alice :End of MOTD\<close>,
  \<open>connect\<close> returns \<open>True\<close> and leaves the client named \<open>alice\<close> and authenticated.
\<close>

theorem handshake_alice:
  "fst (connect (\<lambda>u. Return (online [banner, '':server 001 alice :Welcome to ClawSwarm, alice!'',
                                        '':server 376 alice :End of MOTD''])) self) = Return True
   \<and> name (snd (connect (\<lambda>u. Return (online [banner, '':server 001 alice :Welcome to ClawSwarm, alice!'',
                                        '':server 376 alice :End of MOTD''])) self)) = Some ''alice''
   \<and> authenticated (snd (connect (\<lambda>u. Return (online [banner, '':server 001 alice :Welcome to ClawSwarm, alice!'',
                                        '':server 376 alice :End of MOTD''])) self))"
proof -
  let ?l1 = "'':server 001 alice :Welcome to ClawSwarm, alice!''"
  let ?l2 = "'':server 376 alice :End of MOTD''"
  let ?dial = "\<lambda>u::string. Return (online [banner, ?l1, ?l2]) :: websocket result"
  have "?dial (url self) = Return (online [banner, ?l1, ?l2])" "alive (online [banner, ?l1, ?l2])"
    "inbound (online [banner, ?l1, ?l2]) = banner # [?l1, ?l2]"
    by (simp_all add: online_def)
  from connect_handshake [of ?dial self _ banner, OF this]
  obtain s' where s': "connect ?dial self = (Return (authenticated s'), s')"
    "(name s', authenticated s')
     = foldl absorb (name self, authenticated self) (handshake_lines [?l1, ?l2])"
    using alice_lines by auto
  have "foldl absorb (name self, authenticated self) (handshake_lines [?l1, ?l2])
        = (Some ''alice'', True)"
    by (simp add: alice_lines absorb_eq strip_alice welcome_re_def lit_def is_space_def)
  with s'(2) have "name s' = Some ''alice''" "authenticated s'" by simp_all
  then show ?thesis by (simp add: s'(1))
qed

section \<open>Actions\<close>

text \<open>
  Claim C9. While \<open>self.ws\<close> is \<open>None\<close>, each of \<open>join\<close>, \<open>part\<close>, \<open>send\<close>, \<open>who\<close>,
  \<open>whois\<close>, \<open>list_channels\<close>, \<open>query\<close>, \<open>register_command\<close> and \<open>set_topic\<close> returns
  without raising and sends nothing: the client is as it was, but for \<open>join\<close>, which adds
  the normalized channel to \<open>channels\<close>, and \<open>part\<close>, which removes it.
\<close>

theorem actions_without_connection:
  assumes "ws self = None"
  shows "join channel self = (Return (), self\<lparr>channels := insert (normalize channel) (channels self)\<rparr>)
       \<and> part channel reason self = (Return (), self\<lparr>channels := channels self - {normalize channel}\<rparr>)
       \<and> send target message self = (Return (), self)
       \<and> who channel self = (Return (), self)
       \<and> whois nick self = (Return (), self)
       \<and> list_channels self = (Return (), self)
       \<and> query nick query_type self = (Return (), self)
       \<and> register_command command description self = (Return (), self)
       \<and> set_topic channel topic self = (Return (), self)"
  using assms
  by (simp add: join_def part_def send_def who_def whois_def list_channels_def query_def
      register_command_def set_topic_def raw_send_def Let_def)

theorem actions_without_connection_witness:
  "ws (init ''u'' ''k'') = None
   \<and> join ''general'' (init ''u'' ''k'') = (Return (), (init ''u'' ''k'')\<lparr>channels := {''#general''}\<rparr>)
   \<and> part ''general'' ''bye'' ((init ''u'' ''k'')\<lparr>channels := {''#general''}\<rparr>)
       = (Return (), init ''u'' ''k'')
   \<and> send ''#general'' ''hi'' (init ''u'' ''k'') = (Return (), init ''u'' ''k'')"
proof -
  have 1: "ws (init ''u'' ''k'') = None" and 2: "ws ((init ''u'' ''k'')\<lparr>channels := {''#general''}\<rparr>) = None"
    by (simp_all add: init_def)
  show ?thesis
    using 1 actions_without_connection [OF 1, of "''general''" _ "''#general''" "''hi''"]
      actions_without_connection [OF 2, of "''general''" "''bye''"]
    by (simp add: normalize_def startswith_def init_def)
qed

lemma normalize_hash: "\<not> startswith c ''#'' \<Longrightarrow> normalize (''#'' @ c) = normalize c"
  by (simp add: normalize_def startswith_def)

text \<open>
  Claim C2, amended. For every channel name \<open>c\<close> without a leading \<open>#\<close>, \<open>join\<close> of
  \<open>c\<close> and of \<open>#c\<close> give the same result, wire output included, and so do \<open>part\<close> of
  \<open>c\<close> and of \<open>#c\<close>. \<open>send\<close> writes its target as it is given, a nick or a channel:
  on an open connection \<open>send\<close> to \<open>c\<close> emits \<open>PRIVMSG c :message\<close> and \<open>send\<close> to
  \<open>#c\<close> emits \<open>PRIVMSG #c :message\<close>.
\<close>

theorem join_part_normalize:
  assumes "\<not> startswith c ''#''"
  shows "join c self = join (''#'' @ c) self
       \<and> part c reason self = part (''#'' @ c) reason self
       \<and> (ws self = Some w \<and> alive w \<longrightarrow>
            send c message self
            = (Return (), self\<lparr>ws := Some (w\<lparr>outbound := outbound w @ [''PRIVMSG '' @ c @ '' :'' @ message]\<rparr>)\<rparr>)
          \<and> send (''#'' @ c) message self
            = (Return (), self\<lparr>ws := Some (w\<lparr>outbound := outbound w @ [''PRIVMSG #'' @ c @ '' :'' @ message]\<rparr>)\<rparr>))"
  using assms normalize_hash [OF assms]
  by (simp add: join_def part_def send_def raw_send_def ws_send_def Let_def)

text \<open>
  Claim C2 as stated fails for \<open>send\<close>: \<open>send\<close> to \<open>general\<close> and \<open>send\<close> to
  \<open>#general\<close> put different lines on the wire.
\<close>

theorem send_keeps_target:
  "send ''general'' ''hi'' connected
     = (Return (), connected\<lparr>ws := Some ((online [])\<lparr>outbound := [''PRIVMSG general :hi'']\<rparr>)\<rparr>)
   \<and> send ''#general'' ''hi'' connected
     = (Return (), connected\<lparr>ws := Some ((online [])\<lparr>outbound := [''PRIVMSG #general :hi'']\<rparr>)\<rparr>)
   \<and> send ''general'' ''hi'' connected \<noteq> send ''#general'' ''hi'' connected"
  by (simp add: send_def raw_send_def ws_send_def connected_def online_def init_def)

theorem join_part_normalize_witness:
  "\<not> startswith ''general'' ''#''
   \<and> join ''general'' connected = join ''#general'' connected
   \<and> join ''general'' connected
     = (Return (), connected\<lparr>ws := Some ((online [])\<lparr>outbound := [''JOIN #general'']\<rparr>),
                             channels := {''#general''}\<rparr>)
   \<and> part ''general'' ''bye'' connected = part ''#general'' ''bye'' connected
   \<and> ws connected = Some (online []) \<and> alive (online [])
   \<and> send ''general'' ''hi'' connected
     = (Return (), connected\<lparr>ws := Some ((online [])\<lparr>outbound := [''PRIVMSG general :hi'']\<rparr>)\<rparr>)
   \<and> send ''#general'' ''hi'' connected
     = (Return (), connected\<lparr>ws := Some ((online [])\<lparr>outbound := [''PRIVMSG #general :hi'']\<rparr>)\<rparr>)"
proof -
  have 1: "\<not> startswith ''general'' ''#''" by (simp add: startswith_def)
  have 2: "join ''general'' connected
     = (Return (), connected\<lparr>ws := Some ((online [])\<lparr>outbound := [''JOIN #general'']\<rparr>),
                             channels := {''#general''}\<rparr>)"
    by (simp add: join_def raw_send_def ws_send_def connected_def online_def init_def
        normalize_def startswith_def Let_def)
  have 3: "ws connected = Some (online [])" "alive (online [])" "outbound (online []) = []"
    by (simp_all add: connected_def online_def)
  show ?thesis
    using 1 2 3 join_part_normalize [OF 1, of connected "''bye''" "online []" "''hi''"] by simp
qed

section \<open>The relay\<close>

lemma find_discord_channel_id_None:
  "swarm_channel \<notin> snd ` set items \<Longrightarrow> find_discord_channel_id items swarm_channel = None"
  by (induction items) auto

text \<open>
  Claim C8. A SwarmIRC message whose channel (the target without its first character) is
  the SwarmIRC channel of no bridged pair, and a Discord message whose channel id is the
  id of no bridged pair, leave the bridge as it was: nothing is sent to Discord and nothing
  to SwarmIRC.
\<close>

theorem unmapped_channel_dropped:
  "(drop 1 target \<notin> snd ` set (bridged_channels self) \<longrightarrow>
      on_swarm_message self sender target text = self)
   \<and> (channel_id message \<notin> fst ` set (bridged_channels self) \<longrightarrow>
      on_discord_message self message = self)"
proof -
  have "map_of (bridged_channels self) (channel_id message) = None"
    if "channel_id message \<notin> fst ` set (bridged_channels self)"
    using that by (simp add: map_of_eq_None_iff)
  then show ?thesis
    by (auto simp: on_swarm_message_def on_discord_message_def find_discord_channel_id_None)
qed

lemma relay_eq:
  "relay = \<lparr>discord = guild, swarmirc = connected, swarmirc_name = Some ''bridge'',
            bridged_channels = CHANNEL_MAPPINGS\<rparr>"
  by (simp add: relay_def on_ready_def guild_def CHANNEL_MAPPINGS_def get_channel_def)

theorem unmapped_channel_dropped_witness:
  "drop 1 ''#lobby'' \<notin> snd ` set (bridged_channels relay)
   \<and> on_swarm_message relay ''alice'' ''#lobby'' ''hi'' = relay
   \<and> 42 \<notin> fst ` set (bridged_channels relay)
   \<and> on_discord_message relay
        \<lparr>author_bot = False, author_display_name = ''bob'', in_guild = True, channel_id = 42,
         content = ''hi''\<rparr> = relay"
proof -
  have 1: "drop 1 ''#lobby'' \<notin> snd ` set (bridged_channels relay)"
    and 2: "channel_id \<lparr>author_bot = False, author_display_name = ''bob'', in_guild = True,
               channel_id = 42, content = ''hi''\<rparr> \<notin> fst ` set (bridged_channels relay)"
    by (simp_all add: relay_eq CHANNEL_MAPPINGS_def)
  show ?thesis
    using 1 2 unmapped_channel_dropped [of "''#lobby''" relay "''alice''" "''hi''"
        "\<lparr>author_bot = False, author_display_name = ''bob'', in_guild = True, channel_id = 42,
          content = ''hi''\<rparr>"]
    by simp
qed

text \<open>
  Claim C1. A SwarmIRC message whose body starts with the tag the bridge puts on what it
  relays from Discord, \<open>[Discord/name] \<close>, makes no send to Discord: the body of
  \<open>on_swarm_message\<close> leaves the bridge as it was, and so does every line the client
  parses with the handlers as the bridge registers them. A Discord message that carries
  the tag the bridge puts on what it relays from SwarmIRC, \<open>**[SwarmIRC/sender]** \<close>,
  makes no send to SwarmIRC: the message event leaves the bridge as it was, whoever the
  author, and so does the body of \<open>on_message\<close> for a message the bridge posted itself,
  whose author is the bridge's bot account.
\<close>

theorem loop_guard:
  "on_swarm_message self sender target (''[Discord/'' @ display_name @ ''] '' @ body) = self
   \<and> snd (parse_line (setup_swarmirc_handlers no_handlers) line self) = self
   \<and> snd (message_event (message\<lparr>content := ''**[SwarmIRC/'' @ sender @ '']** '' @ body\<rparr>) self)
       = self
   \<and> (author_bot message \<longrightarrow>
        on_discord_message self (message\<lparr>content := ''**[SwarmIRC/'' @ sender @ '']** '' @ body\<rparr>)
        = self)"
proof -
  have "fire [unawaited n] args self = (Return (), self)" for n args
    by (simp add: unawaited_def try_pass_def)
  moreover have "setup_swarmirc_handlers no_handlers Raw = [unawaited 1]"
    "setup_swarmirc_handlers no_handlers Message = [unawaited 3]"
    "setup_swarmirc_handlers no_handlers Join = []"
    "setup_swarmirc_handlers no_handlers Part = []"
    "setup_swarmirc_handlers no_handlers Query = []"
    "setup_swarmirc_handlers no_handlers Cmd = []"
    by (simp_all add: setup_swarmirc_handlers_def on_raw_def on_message_def register_def
        no_handlers_def)
  ultimately have d: "dispatch (setup_swarmirc_handlers no_handlers) ev self = (Return (), self)"
    if "structured ev" for ev
    using that by (auto simp: structured_def split: option.splits)
  have r: "fire (setup_swarmirc_handlers no_handlers Raw) [strip line] self = (Return (), self)"
    by (simp add: setup_swarmirc_handlers_def on_raw_def on_message_def register_def
        no_handlers_def unawaited_def try_pass_def)
  have "parse_line (setup_swarmirc_handlers no_handlers) line self = (Return (), self)"
  proof (cases "strip line = []")
    case True
    then show ?thesis by (simp add: parse_line_blank)
  next
    case False
    from parse_line_event [OF False, where ?'w = bridge]
    obtain ev where "structured ev"
      "parse_line (setup_swarmirc_handlers no_handlers) line self
       = dispatch (setup_swarmirc_handlers no_handlers) ev
           (snd (fire (setup_swarmirc_handlers no_handlers Raw) [strip line] self))"
      by blast
    then show ?thesis by (simp add: r d)
  qed
  then show ?thesis
    by (simp add: on_swarm_message_def on_discord_message_def startswith_def message_event_def
        on_message_call_def)
qed

theorem loop_guard_witness:
  "on_swarm_message relay ''bridge2'' ''#general'' (''[Discord/'' @ ''bob'' @ ''] '' @ ''hello'') = relay
   \<and> snd (parse_line (setup_swarmirc_handlers no_handlers)
          '':bridge2 PRIVMSG #general :[Discord/bob] hello'' relay) = relay
   \<and> snd (message_event \<lparr>author_bot = True, author_display_name = ''bridge'', in_guild = True,
           channel_id = 1328042828462297282,
           content = ''**[SwarmIRC/'' @ ''bridge2'' @ '']** '' @ ''hello''\<rparr> relay) = relay
   \<and> author_bot \<lparr>author_bot = True, author_display_name = ''bridge'', in_guild = True,
         channel_id = 1328042828462297282, content = []\<rparr>
   \<and> on_discord_message relay
        \<lparr>author_bot = True, author_display_name = ''bridge'', in_guild = True,
         channel_id = 1328042828462297282,
         content = ''**[SwarmIRC/'' @ ''bridge2'' @ '']** '' @ ''hello''\<rparr> = relay"
  using loop_guard [of relay "''bridge2''" "''#general''" "''bob''" "''hello''"
      "'':bridge2 PRIVMSG #general :[Discord/bob] hello''"
      "\<lparr>author_bot = True, author_display_name = ''bridge'', in_guild = True,
         channel_id = 1328042828462297282, content = []\<rparr>"]
  by simp

end
